theory Spec2Isabelle
  imports Complex_Main "HOL-Library.AList"
begin

section \<open>JavaScript values\<close>

text \<open>
  The module under study (\<^verbatim>\<open>src/advanced-features.ts\<close>) takes its inputs as
  \<^verbatim>\<open>any\<close>. The values modelled here are the ones a Prisma row or a query
  options object is built from: \<^verbatim>\<open>undefined\<close>, \<^verbatim>\<open>null\<close>, booleans,
  integral numbers, BigInts, strings, arrays and plain objects. \<open>JNum n\<close> stands for the
  JavaScript number \<open>n\<close> when \<open>n\<close> is a safe integer (\<open>\<bar>n\<bar> < 2^53\<close>), the range in
  which a number holds every integer exactly; a \<open>JNum\<close> outside that range stands for no
  JavaScript value. An object is the list of its own enumerable string-keyed properties
  in the order \<^verbatim>\<open>Object.keys\<close> enumerates them, and its prototype is
  \<^verbatim>\<open>Object.prototype\<close>, unmodified. Dates, functions, symbols, accessors, other
  prototypes and cyclic objects are outside the model; the functions that a property read
  finds on \<^verbatim>\<open>Object.prototype\<close> are accounted for where the code reads a property
  under a key that need not be the object's own (\<open>prop_read\<close> below).
\<close>

datatype jsval =
    JUndefined
  | JNull
  | JBool bool
  | JNum int
  | JBigInt int
  | JStr string
  | JArr "jsval list"
  | JObj "(string \<times> jsval) list"

type_synonym jsobj = "(string \<times> jsval) list"

datatype js_error =
    TypeError string
  | Error string

subsection \<open>Number to string\<close>

definition digit_char :: "int \<Rightarrow> char" where
  "digit_char d = ''0123456789'' ! nat d"

function dec_string :: "int \<Rightarrow> string" where
  "dec_string n =
     (if n < 10 then [digit_char n]
      else dec_string (n div 10) @ [digit_char (n mod 10)])"
  by pat_completeness auto
termination
  by (relation "measure nat") auto

text \<open>
  \<^verbatim>\<open>String(n)\<close> for a number that is a safe integer (\<open>\<bar>n\<bar> < 2^53\<close>), and for a BigInt
  of any size: the decimal digits, with a minus sign below zero. From \<open>2^53\<close> up a
  JavaScript number prints the shortest digits that identify the double, padded with
  zeros (\<^verbatim>\<open>String(2**60)\<close> is \<^verbatim>\<open>"1152921504606847000"\<close>), and from \<open>10^21\<close> up in
  exponent notation; these numbers are outside the model.
\<close>

definition int_to_string :: "int \<Rightarrow> string" where
  "int_to_string i = (if i < 0 then CHR ''-'' # dec_string (- i) else dec_string i)"

subsection \<open>Array.prototype.join\<close>

fun join :: "string \<Rightarrow> string list \<Rightarrow> string" where
  "join sep [] = []"
| "join sep [x] = x"
| "join sep (x # y # ys) = x @ sep @ join sep (y # ys)"

subsection \<open>Own properties: reading, defining, spreading\<close>

text \<open>Reading an own property of an object: a missing key reads as \<^verbatim>\<open>undefined\<close>. This
  is \<^verbatim>\<open>o[k]\<close> whenever \<open>k\<close> is an own key of \<open>o\<close> or no property of
  \<^verbatim>\<open>Object.prototype\<close>; the read that also consults the prototype is \<open>prop_read\<close>
  below.\<close>

definition obj_get :: "jsobj \<Rightarrow> string \<Rightarrow> jsval" where
  "obj_get ps k = (case map_of ps k of None \<Rightarrow> JUndefined | Some v \<Rightarrow> v)"

text \<open>
  An array index is the canonical decimal numeral of an integer below \<open>2^32 - 1\<close>;
  an object enumerates such keys first, in ascending order, and the other keys after
  them in the order they were created.
\<close>

definition digit_val :: "char \<Rightarrow> int" where
  "digit_val c = of_char c - 48"

definition string_to_int :: "string \<Rightarrow> int" where
  "string_to_int s = foldl (\<lambda>acc c. 10 * acc + digit_val c) 0 s"

definition array_index :: "string \<Rightarrow> int option" where
  "array_index s =
     (if s \<noteq> [] \<and> list_all (\<lambda>c. c \<in> set ''0123456789'') s
         \<and> (s = ''0'' \<or> hd s \<noteq> CHR ''0'') \<and> string_to_int s < 4294967295
      then Some (string_to_int s) else None)"

fun insert_index :: "int \<Rightarrow> string \<Rightarrow> jsval \<Rightarrow> jsobj \<Rightarrow> jsobj" where
  "insert_index i k v [] = [(k, v)]"
| "insert_index i k v (p # ps) =
     (case array_index (fst p) of
        Some j \<Rightarrow> if j < i then p # insert_index i k v ps else (k, v) # p # ps
      | None \<Rightarrow> (k, v) # p # ps)"

text \<open>
  Defining a data property (what an object literal and a spread do for each key): an
  existing key keeps its place and takes the new value, a new key is placed by the
  enumeration order.
\<close>

definition obj_set :: "jsobj \<Rightarrow> string \<Rightarrow> jsval \<Rightarrow> jsobj" where
  "obj_set ps k v =
     (if k \<in> set (map fst ps)
      then map (\<lambda>p. if fst p = k then (k, v) else p) ps
      else (case array_index k of
              Some i \<Rightarrow> insert_index i k v ps
            | None \<Rightarrow> ps @ [(k, v)]))"

text \<open>
  The own enumerable properties a spread \<^verbatim>\<open>...v\<close> copies: those of an object, the
  indexed elements of an array, the indexed characters of a string, and nothing for
  \<^verbatim>\<open>undefined\<close>, \<^verbatim>\<open>null\<close>, a boolean or a number.
\<close>

fun own_props :: "jsval \<Rightarrow> jsobj" where
  "own_props (JObj ps) = ps"
| "own_props (JArr xs) = zip (map (\<lambda>i. dec_string (int i)) [0..<length xs]) xs"
| "own_props (JStr s) =
     zip (map (\<lambda>i. dec_string (int i)) [0..<length s]) (map (\<lambda>c. JStr [c]) s)"
| "own_props v = []"

text \<open>\<^verbatim>\<open>{...target, ...source}\<close>: the properties of the source are defined on the target in turn.\<close>

definition obj_assign :: "jsobj \<Rightarrow> jsobj \<Rightarrow> jsobj" where
  "obj_assign target source = foldl (\<lambda>acc p. obj_set acc (fst p) (snd p)) target source"

definition spread :: "jsobj \<Rightarrow> jsval \<Rightarrow> jsobj" where
  "spread target v = obj_assign target (own_props v)"

subsection \<open>JSON.stringify and String\<close>

definition hex_digit :: "nat \<Rightarrow> char" where
  "hex_digit d = ''0123456789abcdef'' ! d"

definition json_quote_char :: "char \<Rightarrow> string" where
  "json_quote_char c =
     (if c = CHR 0x22 then [CHR 0x5C, CHR 0x22]
      else if c = CHR 0x5C then [CHR 0x5C, CHR 0x5C]
      else if c = CHR 0x08 then [CHR 0x5C, CHR ''b'']
      else if c = CHR 0x09 then [CHR 0x5C, CHR ''t'']
      else if c = CHR 0x0A then [CHR 0x5C, CHR ''n'']
      else if c = CHR 0x0C then [CHR 0x5C, CHR ''f'']
      else if c = CHR 0x0D then [CHR 0x5C, CHR ''r'']
      else if (of_char c :: nat) < 32
        then [CHR 0x5C, CHR ''u'', CHR ''0'', CHR ''0'',
              hex_digit (of_char c div 16), hex_digit (of_char c mod 16)]
      else [c])"

definition json_quote :: "string \<Rightarrow> string" where
  "json_quote s = CHR 0x22 # concat (map json_quote_char s) @ [CHR 0x22]"

text \<open>
  \<^verbatim>\<open>JSON.stringify(v)\<close> for a value other than \<^verbatim>\<open>undefined\<close>: \<open>None\<close> when it
  throws its TypeError, which it does on a BigInt anywhere inside the value. An
  \<^verbatim>\<open>undefined\<close> array element is written \<^verbatim>\<open>null\<close>, a property whose value is
  \<^verbatim>\<open>undefined\<close> is left out.
\<close>

fun JSON_stringify :: "jsval \<Rightarrow> string option" where
  "JSON_stringify JUndefined = Some ''null''"
| "JSON_stringify JNull = Some ''null''"
| "JSON_stringify (JBool b) = Some (if b then ''true'' else ''false'')"
| "JSON_stringify (JNum n) = Some (int_to_string n)"
| "JSON_stringify (JBigInt n) = None"
| "JSON_stringify (JStr s) = Some (json_quote s)"
| "JSON_stringify (JArr xs) =
     map_option (\<lambda>ss. ''['' @ join '','' ss @ '']'') (those (map JSON_stringify xs))"
| "JSON_stringify (JObj ps) =
     map_option (\<lambda>ss. ''{'' @ join '','' ss @ ''}'')
       (those (map (\<lambda>p. map_option (\<lambda>s. json_quote (fst p) @ '':'' @ s) (JSON_stringify (snd p)))
                   (filter (\<lambda>p. snd p \<noteq> JUndefined) ps)))"




section \<open>The base query builder\<close>

text \<open>
  \<^verbatim>\<open>queryBuilder\<close> lives in \<^verbatim>\<open>src/query-builder.ts\<close>, which is not among the
  sources; the decorators only call it. It is a parameter of every decorator below: a
  function from the options object and the state of the outside world (the database)
  to the response or the error it rejects with, and the new state of the world.
\<close>

record response =
  data :: "jsval list"
  meta :: jsval

type_synonym 'w executor = "jsobj \<Rightarrow> 'w \<Rightarrow> (js_error + response) \<times> 'w"

text \<open>A sample executor for the concrete runs below: it answers with the options it was
  given and counts its calls in the world.\<close>

definition echo_executor :: "nat executor" where
  "echo_executor options n = (Inr \<lparr>data = [JObj options], meta = JNum (int n)\<rparr>, Suc n)"

section \<open>Soft delete (advanced-features.ts, section 3)\<close>

record soft_delete_options =
  includeTrashed :: "bool option"
  trashedOnly :: "bool option"
  deletedAtField :: "string option"

definition default_to :: "'a \<Rightarrow> 'a option \<Rightarrow> 'a" where
  "default_to d x = (case x of None \<Rightarrow> d | Some v \<Rightarrow> v)"

definition buildSoftDeleteFilter :: "soft_delete_options option \<Rightarrow> jsobj" where
  "buildSoftDeleteFilter options =
     (let inc = (case options of None \<Rightarrow> False | Some x \<Rightarrow> default_to False (includeTrashed x));
          only = (case options of None \<Rightarrow> False | Some x \<Rightarrow> default_to False (trashedOnly x));
          field = (case options of None \<Rightarrow> ''deletedAt''
                   | Some x \<Rightarrow> default_to ''deletedAt'' (deletedAtField x))
      in if inc then []
         else if only then [(field, JObj [(''not'', JNull)])]
         else [(field, JObj [(''equals'', JNull)])])"

text \<open>The options object \<^verbatim>\<open>{...options, filters: {...options.filters, ...extra}}\<close> that the
  soft-delete and the tenant decorators pass on.\<close>

definition with_filters :: "jsobj \<Rightarrow> jsobj \<Rightarrow> jsobj" where
  "with_filters options extra =
     obj_set (obj_assign [] options) ''filters''
       (JObj (obj_assign (spread [] (obj_get options ''filters'')) extra))"

definition softDeleteQueryBuilder ::
  "'w executor \<Rightarrow> jsobj \<Rightarrow> soft_delete_options option \<Rightarrow> 'w \<Rightarrow> (js_error + response) \<times> 'w" where
  "softDeleteQueryBuilder queryBuilder options softDeleteOptions w =
     (let softDeleteFilter = buildSoftDeleteFilter softDeleteOptions
      in queryBuilder (with_filters options softDeleteFilter) w)"

text \<open>
  Modelled from the spec: how the executor reads a filters object is not in the sources
  (Prisma evaluates it). The spec's section 6 asks of the executor equality predicates
  combined by AND; the three condition shapes the soft-delete filter needs are read as
  Prisma documents them: \<^verbatim>\<open>{equals: x}\<close> holds of a field equal to \<open>x\<close>,
  \<^verbatim>\<open>{not: x}\<close> of any other value, and a scalar condition \<open>x\<close> is \<^verbatim>\<open>{equals: x}\<close>.
  \<open>None\<close> is a condition this reading does not cover.
\<close>

fun cond_holds :: "jsval \<Rightarrow> jsval \<Rightarrow> bool option" where
  "cond_holds (JObj [(opr, x)]) v =
     (if opr = ''equals'' then Some (v = x) else if opr = ''not'' then Some (v \<noteq> x) else None)"
| "cond_holds (JObj ps) v = None"
| "cond_holds (JArr xs) v = None"
| "cond_holds c v = Some (v = c)"

definition row_matches :: "jsobj \<Rightarrow> jsobj \<Rightarrow> bool option" where
  "row_matches filters row =
     map_option (list_all id)
       (those (map (\<lambda>p. cond_holds (snd p) (obj_get row (fst p))) filters))"

section \<open>Multi-tenant support (advanced-features.ts, section 4)\<close>





section \<open>Query caching (advanced-features.ts, section 1)\<close>

record cache_entry =
  entry_value :: response
  expiry :: int

type_synonym cache = "string \<rightharpoonup> cache_entry"

text \<open>\<^verbatim>\<open>InMemoryCache.get\<close> at time \<open>now\<close>: the value or \<^verbatim>\<open>null\<close>, and the map after
  the call.\<close>

definition cache_get :: "int \<Rightarrow> string \<Rightarrow> cache \<Rightarrow> response option \<times> cache" where
  "cache_get now k c =
     (case c k of
        None \<Rightarrow> (None, c)
      | Some item \<Rightarrow>
          if now > expiry item then (None, c(k := None))
          else (Some (entry_value item), c))"

definition cache_set :: "int \<Rightarrow> string \<Rightarrow> response \<Rightarrow> int option \<Rightarrow> cache \<Rightarrow> cache" where
  "cache_set now k v t c =
     c(k \<mapsto> \<lparr>entry_value = v, expiry = now + default_to 300000 t\<rparr>)"

definition cache_delete :: "string \<Rightarrow> cache \<Rightarrow> cache" where
  "cache_delete k c = c(k := None)"

definition cache_clear :: "cache \<Rightarrow> cache" where
  "cache_clear c = Map.empty"

record cache_config =
  key :: "string option"
  ttl :: "int option"
  enabled :: "bool option"

text \<open>
  \<open>clock\<close> reads \<^verbatim>\<open>Date.now()\<close> off the world: once in \<^verbatim>\<open>get\<close>, before the query,
  and once in \<^verbatim>\<open>set\<close>, after it. A response is an object, so \<^verbatim>\<open>if (cached)\<close>
  tests it against \<^verbatim>\<open>null\<close> only; the empty string is a falsy key.
\<close>

definition cachedQueryBuilder ::
  "'w executor \<Rightarrow> ('w \<Rightarrow> int) \<Rightarrow> jsobj \<Rightarrow> cache_config option \<Rightarrow> cache \<times> 'w
     \<Rightarrow> (js_error + response) \<times> cache \<times> 'w" where
  "cachedQueryBuilder queryBuilder clock options cacheConfig st =
     (let c = fst st; w = snd st;
          k = (case cacheConfig of None \<Rightarrow> None | Some cfg \<Rightarrow> key cfg);
          t = (case cacheConfig of None \<Rightarrow> None | Some cfg \<Rightarrow> ttl cfg);
          en = (case cacheConfig of None \<Rightarrow> True | Some cfg \<Rightarrow> default_to True (enabled cfg))
      in if \<not> en \<or> k = None \<or> k = Some []
         then (case queryBuilder options w of (r, w') \<Rightarrow> (r, c, w'))
         else (case cache_get (clock w) (the k) c of
                 (Some cached, c1) \<Rightarrow> (Inr cached, c1, w)
               | (None, c1) \<Rightarrow>
                   (case queryBuilder options w of
                      (Inl e, w') \<Rightarrow> (Inl e, c1, w')
                    | (Inr result, w') \<Rightarrow>
                        (Inr result, cache_set (clock w') (the k) result t c1, w'))))"

text \<open>A sample clock for the concrete runs: one second per step of the world.\<close>

definition tick_clock :: "nat \<Rightarrow> int" where
  "tick_clock n = 1000 * int n"

section \<open>Export utilities (advanced-features.ts, section 6)\<close>


text \<open>\<^verbatim>\<open>raw.replace(/"/g, '""')\<close>: every double quote is doubled.\<close>

definition double_quotes :: "string \<Rightarrow> string" where
  "double_quotes raw = concat (map (\<lambda>c. if c = CHR 0x22 then [CHR 0x22, CHR 0x22] else [c]) raw)"

definition escapeCsv :: "string \<Rightarrow> string" where
  "escapeCsv raw =
     (let needsQuotes = (CHR '','' \<in> set raw \<or> CHR 0x22 \<in> set raw
                          \<or> CHR 0x0A \<in> set raw \<or> CHR 0x0D \<in> set raw);
          escaped = double_quotes raw
      in if needsQuotes then CHR 0x22 # escaped @ [CHR 0x22] else escaped)"








text \<open>\<^verbatim>\<open>Array.prototype.map\<close> with a callback that may throw: the elements are visited in
  order, and the first exception ends the loop.\<close>

fun map_throwing :: "('a \<Rightarrow> js_error + 'b) \<Rightarrow> 'a list \<Rightarrow> js_error + 'b list" where
  "map_throwing f [] = Inr []"
| "map_throwing f (x # xs) =
     (case f x of
        Inl e \<Rightarrow> Inl e
      | Inr y \<Rightarrow> (case map_throwing f xs of Inl e \<Rightarrow> Inl e | Inr ys \<Rightarrow> Inr (y # ys)))"



text \<open>
  The reader the round-trip property is measured against, written from RFC 4180's
  grammar for one record: fields separated by commas; an escaped field is enclosed in
  double quotes and may hold commas, CR, LF and doubled double quotes; a non-escaped
  field holds none of these. \<open>None\<close> is a record the grammar does not derive.
\<close>

datatype field_state = FieldStart | Unquoted | Quoted | QuoteSeen

fun rfc4180_fields :: "field_state \<Rightarrow> string \<Rightarrow> string \<Rightarrow> string list option" where
  "rfc4180_fields Quoted cur [] = None"
| "rfc4180_fields st cur [] = Some [cur]"
| "rfc4180_fields FieldStart cur (c # cs) =
     (if c = CHR 0x22 then rfc4180_fields Quoted [] cs
      else if c = CHR '','' then map_option ((#) []) (rfc4180_fields FieldStart [] cs)
      else if c = CHR 0x0A \<or> c = CHR 0x0D then None
      else rfc4180_fields Unquoted [c] cs)"
| "rfc4180_fields Unquoted cur (c # cs) =
     (if c = CHR '','' then map_option ((#) cur) (rfc4180_fields FieldStart [] cs)
      else if c = CHR 0x22 \<or> c = CHR 0x0A \<or> c = CHR 0x0D then None
      else rfc4180_fields Unquoted (cur @ [c]) cs)"
| "rfc4180_fields Quoted cur (c # cs) =
     (if c = CHR 0x22 then rfc4180_fields QuoteSeen cur cs
      else rfc4180_fields Quoted (cur @ [c]) cs)"
| "rfc4180_fields QuoteSeen cur (c # cs) =
     (if c = CHR 0x22 then rfc4180_fields Quoted (cur @ [CHR 0x22]) cs
      else if c = CHR '','' then map_option ((#) cur) (rfc4180_fields FieldStart [] cs)
      else None)"

definition rfc4180_split :: "string \<Rightarrow> string list option" where
  "rfc4180_split line = rfc4180_fields FieldStart [] line"


section \<open>Query presets (advanced-features.ts, section 7)\<close>

text \<open>
  The registry is a \<^verbatim>\<open>Map\<close> from names to the options objects themselves: it keeps a
  reference, not a copy. Objects therefore live in a store here, addressed by
  references, so that the stored object and the merged object an execution builds can
  be told apart. A \<^verbatim>\<open>Map\<close> enumerates its keys in insertion order, and setting an
  existing key keeps its place, which is what \<open>AList.update\<close> does.
\<close>

type_synonym ref = nat

record js_heap =
  objs :: "ref \<Rightarrow> jsobj"
  next_ref :: ref

type_synonym presets = "(string \<times> ref) list"

definition alloc :: "jsobj \<Rightarrow> js_heap \<Rightarrow> ref \<times> js_heap" where
  "alloc ps h = (next_ref h, h\<lparr>objs := (objs h)(next_ref h := ps), next_ref := Suc (next_ref h)\<rparr>)"

definition saveQueryPreset :: "string \<Rightarrow> ref \<Rightarrow> presets \<Rightarrow> presets" where
  "saveQueryPreset name options reg = AList.update name options reg"

text \<open>A reference to an object is never falsy, so \<^verbatim>\<open>if (!preset)\<close> is the test for a
  missing name.\<close>

definition loadQueryPreset :: "presets \<Rightarrow> string \<Rightarrow> js_error + ref" where
  "loadQueryPreset reg name =
     (case map_of reg name of
        None \<Rightarrow> Inl (Error (''Preset '' @ [CHR 0x22] @ name @ [CHR 0x22] @ '' not found''))
      | Some preset \<Rightarrow> Inr preset)"

definition listPresets :: "presets \<Rightarrow> string list" where
  "listPresets reg = map fst reg"

definition deletePreset :: "string \<Rightarrow> presets \<Rightarrow> bool \<times> presets" where
  "deletePreset name reg = (name \<in> set (map fst reg), AList.delete name reg)"

text \<open>
  Here the base query builder is given the reference of its options object and the
  store, which it may write to; the registry is a constant private to the module, out
  of its reach.
\<close>

type_synonym 'w ref_executor =
  "ref \<Rightarrow> js_heap \<times> 'w \<Rightarrow> (js_error + response) \<times> js_heap \<times> 'w"

definition executePreset ::
  "'w ref_executor \<Rightarrow> string \<Rightarrow> jsval \<Rightarrow> presets \<times> js_heap \<times> 'w
     \<Rightarrow> (js_error + response) \<times> presets \<times> js_heap \<times> 'w" where
  "executePreset queryBuilder name overrides st =
     (case st of (reg, h, w) \<Rightarrow>
        (case loadQueryPreset reg name of
           Inl e \<Rightarrow> (Inl e, reg, h, w)
         | Inr preset \<Rightarrow>
             (case alloc (spread (obj_assign [] (objs h preset)) overrides) h of
                (merged, h1) \<Rightarrow>
                  (case queryBuilder merged (h1, w) of
                     (r, h2, w2) \<Rightarrow> (r, reg, h2, w2)))))"

text \<open>A sample executor over the store: it answers with the properties of the object it
  is given, and then writes a \<^verbatim>\<open>page\<close> default into that object.\<close>

definition paging_executor :: "nat ref_executor" where
  "paging_executor r st =
     (case st of (h, n) \<Rightarrow>
        (Inr \<lparr>data = [JObj (objs h r)], meta = JNum (int n)\<rparr>,
         h\<lparr>objs := (objs h)(r := obj_set (objs h r) ''page'' (JNum 1))\<rparr>,
         Suc n))"

text \<open>A sample store: one options object, at reference 0.\<close>

definition sample_store :: js_heap where
  "sample_store =
     \<lparr>objs = (\<lambda>r. [])(0 := [(''page'', JNum 2), (''limit'', JNum 10)]), next_ref = 1\<rparr>"

section \<open>Webhook integration (advanced-features.ts, section 8)\<close>

record webhook_options =
  headers :: "(string \<times> string) list option"
  includeQuery :: "bool option"

record http_request =
  req_method :: string
  req_headers :: jsobj
  req_body :: string

datatype fetch_outcome = Fulfilled | Rejected js_error

text \<open>
  \<open>fetch\<close> is the platform's: given the URL and the request it settles, at some later
  time, as fulfilled or rejected; \<open>iso_now\<close> reads \<^verbatim>\<open>new Date().toISOString()\<close> off the
  world. The console is the list of what \<^verbatim>\<open>console.error\<close> was called with. The
  embedding records the eventual effect of the \<^verbatim>\<open>.catch\<close> handler, not the moment it
  runs. The request body is built before \<^verbatim>\<open>fetch\<close> is called, outside any handler:
  when \<^verbatim>\<open>JSON.stringify\<close> throws, the function rejects with that TypeError.
\<close>

definition webhook_payload :: "response \<Rightarrow> string \<Rightarrow> jsobj \<Rightarrow> webhook_options option \<Rightarrow> jsobj" where
  "webhook_payload result timestamp options webhookOptions =
     (let inc = (case webhookOptions of None \<Rightarrow> False | Some wo \<Rightarrow> default_to False (includeQuery wo))
      in spread
           (obj_assign [] [(''data'', JArr (data result)), (''meta'', meta result),
                           (''timestamp'', JStr timestamp)])
           (if inc then JObj [(''query'', JObj options)] else JBool False))"

definition webhook_headers :: "webhook_options option \<Rightarrow> jsobj" where
  "webhook_headers webhookOptions =
     obj_assign (obj_assign [] [(''Content-Type'', JStr ''application/json'')])
       (case webhookOptions of
          None \<Rightarrow> []
        | Some wo \<Rightarrow> (case headers wo of None \<Rightarrow> [] | Some hs \<Rightarrow> map (\<lambda>p. (fst p, JStr (snd p))) hs))"

definition queryWithWebhook ::
  "'w executor \<Rightarrow> (string \<Rightarrow> http_request \<Rightarrow> 'w \<Rightarrow> fetch_outcome \<times> 'w) \<Rightarrow> ('w \<Rightarrow> string)
     \<Rightarrow> jsobj \<Rightarrow> string \<Rightarrow> webhook_options option \<Rightarrow> (string \<times> js_error) list \<times> 'w
     \<Rightarrow> (js_error + response) \<times> (string \<times> js_error) list \<times> 'w" where
  "queryWithWebhook queryBuilder fetch iso_now options webhookUrl webhookOptions st =
     (case st of (console, w) \<Rightarrow>
        (case queryBuilder options w of
           (Inl e, w1) \<Rightarrow> (Inl e, console, w1)
         | (Inr result, w1) \<Rightarrow>
             (case JSON_stringify (JObj (webhook_payload result (iso_now w1) options webhookOptions)) of
                None \<Rightarrow> (Inl (TypeError ''Do not know how to serialize a BigInt''), console, w1)
              | Some body \<Rightarrow>
                  (case fetch webhookUrl
                          \<lparr>req_method = ''POST'', req_headers = webhook_headers webhookOptions,
                           req_body = body\<rparr> w1 of
                     (Fulfilled, w2) \<Rightarrow> (Inr result, console, w2)
                   | (Rejected err, w2) \<Rightarrow>
                       (Inr result, console @ [(''Webhook error:'', err)], w2)))))"

text \<open>Sample collaborators for the concrete runs: an executor whose only row has a BigInt
  column, a network that is down, and a fixed clock.\<close>

definition bigint_executor :: "nat executor" where
  "bigint_executor options n =
     (Inr \<lparr>data = [JObj [(''id'', JBigInt 10)]], meta = JObj [(''total'', JNum 1)]\<rparr>, Suc n)"

definition fetch_down :: "string \<Rightarrow> http_request \<Rightarrow> nat \<Rightarrow> fetch_outcome \<times> nat" where
  "fetch_down url req n = (Rejected (Error ''network''), n)"

definition fetch_ok :: "string \<Rightarrow> http_request \<Rightarrow> nat \<Rightarrow> fetch_outcome \<times> nat" where
  "fetch_ok url req n = (Fulfilled, n)"

definition fixed_iso :: "nat \<Rightarrow> string" where
  "fixed_iso n = ''2026-01-01T00:00:00.000Z''"

section \<open>Pagination helpers (pagination.ts)\<close>

text \<open>
  Modelled from the spec: \<^verbatim>\<open>src/pagination.ts\<close>, which defines
  \<^verbatim>\<open>calculateTotalPages\<close> and \<^verbatim>\<open>processCursorResults\<close>, is not among the sources;
  only its edge-case tests are. The spec's section 4.2 gives
  \<^verbatim>\<open>calculateTotalPages(total, limit) -> ceil(total/limit)\<close>, returning 0 when
  \<^verbatim>\<open>total = 0\<close> regardless of \<^verbatim>\<open>limit\<close>. The quotient is the exact one; with a zero
  limit and a non-zero total it is not finite and the result is \<open>None\<close>.
\<close>

definition calculateTotalPages :: "int \<Rightarrow> int \<Rightarrow> int option" where
  "calculateTotalPages total_rows limit =
     (if limit = 0 then (if total_rows = 0 then Some 0 else None)
      else Some \<lceil>real_of_int total_rows / real_of_int limit\<rceil>)"

text \<open>
  Modelled from the spec: section 4.2 gives \<^verbatim>\<open>processCursorResults(rows, limit,
  cursorField) -> {data, hasMore, nextCursor}\<close>: if \<^verbatim>\<open>rows.length > limit\<close> then
  \<^verbatim>\<open>hasMore = true\<close>, \<^verbatim>\<open>data = rows[0..limit)\<close>, \<^verbatim>\<open>nextCursor = data[last][cursorField]\<close>;
  else \<^verbatim>\<open>hasMore = false\<close>, \<^verbatim>\<open>data = rows\<close>, \<^verbatim>\<open>nextCursor = rows.length > 0 ?
  rows[last][cursorField] : null\<close>. With a zero limit and a row, \<^verbatim>\<open>data\<close> has no last
  row to read the cursor from: reading a property of \<^verbatim>\<open>undefined\<close> is a TypeError.
\<close>

record cursor_result =
  cursor_data :: "jsobj list"
  hasMore :: bool
  nextCursor :: jsval

definition processCursorResults :: "jsobj list \<Rightarrow> nat \<Rightarrow> string \<Rightarrow> js_error + cursor_result" where
  "processCursorResults rows limit cursorField =
     (if length rows > limit
      then (case take limit rows of
              [] \<Rightarrow> Inl (TypeError ''Cannot read properties of undefined'')
            | d # ds \<Rightarrow>
                Inr \<lparr>cursor_data = d # ds, hasMore = True,
                     nextCursor = obj_get (last (d # ds)) cursorField\<rparr>)
      else Inr \<lparr>cursor_data = rows, hasMore = False,
                nextCursor = (if length rows > 0 then obj_get (last rows) cursorField else JNull)\<rparr>)"

section \<open>Filter combinators (filters.ts)\<close>

text \<open>
  Modelled from the spec: \<^verbatim>\<open>src/filters.ts\<close>, which defines \<^verbatim>\<open>combineFilters\<close> and
  \<^verbatim>\<open>combineFiltersWithOr\<close>, is not among the sources; only its edge-case tests are.
  Section 4.1 of the spec: the AND combinator of an empty input list yields "no
  constraint" (the tests expect the empty object), of one input that input unwrapped,
  of two or more an AND node. The OR combinator mirrors the unwrapping rule over its
  non-empty inputs, and yields absent (\<^verbatim>\<open>undefined\<close>) when there is none.
\<close>

definition combineFilters :: "jsobj list \<Rightarrow> jsval" where
  "combineFilters filters =
     (case filters of
        [] \<Rightarrow> JObj []
      | [f] \<Rightarrow> JObj f
      | f # g # fs \<Rightarrow> JObj [(''AND'', JArr (map JObj filters))])"

definition combineFiltersWithOr :: "jsobj list \<Rightarrow> jsval" where
  "combineFiltersWithOr filters =
     (case filter (\<lambda>f. f \<noteq> []) filters of
        [] \<Rightarrow> JUndefined
      | [f] \<Rightarrow> JObj f
      | f # g # fs \<Rightarrow> JObj [(''OR'', JArr (map JObj (filter (\<lambda>f. f \<noteq> []) filters)))])"

section \<open>Properties of the object operations\<close>

text \<open>Defining a property changes the lookup of that key and of no other, wherever the
  enumeration order places it.\<close>

lemma map_of_insert_index:
  "k \<notin> set (map fst ps) \<Longrightarrow> map_of (insert_index i k v ps) = (map_of ps)(k \<mapsto> v)"
  by (induction ps) (auto split: option.splits simp: fun_upd_twist)

lemma map_of_replace:
  "map_of (map (\<lambda>p. if fst p = k then (k, v) else p) ps) x =
     (if x = k \<and> k \<in> fst ` set ps then Some v else map_of ps x)"
  by (induction ps) (auto simp: rev_image_eqI)

lemma map_of_append_new:
  "k \<notin> set (map fst ps) \<Longrightarrow> map_of (ps @ [(k, v)]) = (map_of ps)(k \<mapsto> v)"
  by (induction ps) (auto simp: fun_upd_twist)

lemma map_of_obj_set: "map_of (obj_set ps k v) = (map_of ps)(k \<mapsto> v)"
proof (cases "k \<in> set (map fst ps)")
  case True
  then show ?thesis
    by (auto simp: obj_set_def map_of_replace fun_eq_iff)
next
  case False
  show ?thesis
  proof (cases "array_index k")
    case None
    with False have "obj_set ps k v = ps @ [(k, v)]"
      by (simp add: obj_set_def)
    then show ?thesis
      using map_of_append_new [OF False] by simp
  next
    case (Some i)
    with False have "obj_set ps k v = insert_index i k v ps"
      by (simp add: obj_set_def)
    then show ?thesis
      using map_of_insert_index [OF False] by simp
  qed
qed

lemma map_of_obj_assign: "map_of (obj_assign t s) = map_of t ++ map_of (rev s)"
  unfolding obj_assign_def
proof (induction s arbitrary: t)
  case Nil
  then show ?case by simp
next
  case (Cons p s)
  show ?case
    by (cases p) (simp add: Cons.IH map_of_obj_set map_add_upd_left fun_eq_iff map_add_def split: option.splits)
qed

lemma obj_get_obj_set: "obj_get (obj_set ps k v) x = (if x = k then v else obj_get ps x)"
  by (simp add: obj_get_def map_of_obj_set)

lemma obj_get_obj_assign:
  "obj_get (obj_assign t s) x = (case map_of (rev s) x of None \<Rightarrow> obj_get t x | Some v \<Rightarrow> v)"
  by (simp add: obj_get_def map_of_obj_assign map_add_def split: option.splits)


lemma obj_assign_Nil: "obj_assign t [] = t"
  by (simp add: obj_assign_def)

lemma obj_get_with_filters:
  "obj_get (with_filters options extra) ''filters'' =
     JObj (obj_assign (spread [] (obj_get options ''filters'')) extra)"
  by (simp add: with_filters_def obj_get_obj_set)

lemma map_of_rev_distinct:
  "distinct (map fst ps) \<Longrightarrow> map_of (rev ps) = map_of ps"
proof (induction ps)
  case Nil
  then show ?case by simp
next
  case (Cons p ps)
  then have "fst p \<notin> dom (map_of ps)"
    by (simp add: dom_map_of_conv_image_fst)
  then have "map_of ps (fst p) = None"
    by blast
  with Cons show ?case
    by (cases p) (auto simp: fun_eq_iff map_add_def split: option.splits)
qed






lemma buildSoftDeleteFilter_unfold:
  "buildSoftDeleteFilter (Some \<lparr>includeTrashed = inc, trashedOnly = only, deletedAtField = f\<rparr>) =
     (if inc = Some True then []
      else if only = Some True then [(default_to ''deletedAt'' f, JObj [(''not'', JNull)])]
      else [(default_to ''deletedAt'' f, JObj [(''equals'', JNull)])])"
  by (cases inc; cases only) (auto simp: buildSoftDeleteFilter_def default_to_def)

lemma row_matches_single:
  "row_matches [(f, c)] row = cond_holds c (obj_get row f)"
  by (cases "cond_holds c (obj_get row f)") (simp_all add: row_matches_def)

section \<open>Soft delete: the injected filter\<close>

text \<open>
  Claim C4. \<^verbatim>\<open>buildSoftDeleteFilter\<close> yields \<^verbatim>\<open>{deletedAtField: {equals: null}}\<close> by
  default (also when called with no options), which the executor reads as it reads
  \<^verbatim>\<open>{deletedAtField: null}\<close>: it holds exactly of the rows whose deleted-at field is
  \<^verbatim>\<open>null\<close>. With \<^verbatim>\<open>trashedOnly\<close> it yields \<^verbatim>\<open>{deletedAtField: {not: null}}\<close>, which
  holds exactly of the rows whose deleted-at field is not \<^verbatim>\<open>null\<close>. With
  \<^verbatim>\<open>includeTrashed\<close> it yields the empty filter, which holds of every row, whether or
  not \<^verbatim>\<open>trashedOnly\<close> is set as well. \<^verbatim>\<open>softDeleteQueryBuilder\<close> runs the base query
  on the options whose \<^verbatim>\<open>filters\<close> are the caller's with that filter spread over them:
  a key of the soft-delete filter reads as its condition, any other key as in the
  caller's filters.
\<close>

theorem soft_delete_filter_modes:
  fixes queryBuilder :: "'w executor"
  shows
  "buildSoftDeleteFilter None = [(''deletedAt'', JObj [(''equals'', JNull)])]
   \<and> buildSoftDeleteFilter (Some \<lparr>includeTrashed = inc, trashedOnly = only, deletedAtField = f\<rparr>) =
       (if inc = Some True then []
        else if only = Some True then [(default_to ''deletedAt'' f, JObj [(''not'', JNull)])]
        else [(default_to ''deletedAt'' f, JObj [(''equals'', JNull)])])
   \<and> row_matches [(fld, JNull)] row = row_matches [(fld, JObj [(''equals'', JNull)])] row
   \<and> row_matches [(fld, JObj [(''equals'', JNull)])] row = Some (obj_get row fld = JNull)
   \<and> row_matches [(fld, JObj [(''not'', JNull)])] row = Some (obj_get row fld \<noteq> JNull)
   \<and> row_matches [] row = Some True
   \<and> softDeleteQueryBuilder queryBuilder options sd w =
       queryBuilder (with_filters options (buildSoftDeleteFilter sd)) w
   \<and> obj_get (with_filters options (buildSoftDeleteFilter sd)) ''filters'' =
       JObj (obj_assign (spread [] (obj_get options ''filters'')) (buildSoftDeleteFilter sd))
   \<and> obj_get (obj_assign (spread [] (obj_get options ''filters'')) (buildSoftDeleteFilter sd)) k =
       (case map_of (buildSoftDeleteFilter sd) k of
          Some c \<Rightarrow> c
        | None \<Rightarrow> obj_get (spread [] (obj_get options ''filters'')) k)"
proof -
  have a: "buildSoftDeleteFilter None = [(''deletedAt'', JObj [(''equals'', JNull)])]"
    by (simp add: buildSoftDeleteFilter_def)
  have b: "row_matches [(fld, JObj [(''equals'', JNull)])] row = Some (obj_get row fld = JNull)"
    by (simp add: row_matches_single)
  have c: "row_matches [(fld, JNull)] row = Some (obj_get row fld = JNull)"
    by (simp add: row_matches_single)
  have d: "row_matches [(fld, JObj [(''not'', JNull)])] row = Some (obj_get row fld \<noteq> JNull)"
    by (simp add: row_matches_single)
  have e: "row_matches [] row = Some True"
    by (simp add: row_matches_def)
  have g: "softDeleteQueryBuilder queryBuilder options sd w =
       queryBuilder (with_filters options (buildSoftDeleteFilter sd)) w"
    by (simp add: softDeleteQueryBuilder_def)
  have single: "length (buildSoftDeleteFilter sd) \<le> 1"
    by (cases sd) (auto simp: buildSoftDeleteFilter_def Let_def)
  then have "rev (buildSoftDeleteFilter sd) = buildSoftDeleteFilter sd"
    by (cases "buildSoftDeleteFilter sd") auto
  then have h: "obj_get (obj_assign (spread [] (obj_get options ''filters'')) (buildSoftDeleteFilter sd)) k =
       (case map_of (buildSoftDeleteFilter sd) k of
          Some c \<Rightarrow> c
        | None \<Rightarrow> obj_get (spread [] (obj_get options ''filters'')) k)"
    by (simp add: obj_get_obj_assign split: option.splits)
  show ?thesis
    using a b c d e g h buildSoftDeleteFilter_unfold obj_get_with_filters by simp
qed

lemma soft_delete_run:
  "softDeleteQueryBuilder echo_executor
      [(''page'', JNum 1), (''filters'', JObj [(''deletedAt'', JStr ''x''), (''isActive'', JBool True)])]
      (Some \<lparr>includeTrashed = Some False, trashedOnly = Some True, deletedAtField = None\<rparr>) 0
   = (Inr \<lparr>data = [JObj [(''page'', JNum 1),
                          (''filters'', JObj [(''deletedAt'', JObj [(''not'', JNull)]),
                                             (''isActive'', JBool True)])]],
           meta = JNum 0\<rparr>, 1)"
  by code_simp

text \<open>The modes at concrete options, and one run: the caller's own \<^verbatim>\<open>deletedAt\<close> filter
  is overwritten in place by the \<^verbatim>\<open>trashedOnly\<close> condition.\<close>

theorem soft_delete_filter_modes_witness:
  "buildSoftDeleteFilter (Some \<lparr>includeTrashed = Some True, trashedOnly = Some True, deletedAtField = None\<rparr>) = []
   \<and> buildSoftDeleteFilter (Some \<lparr>includeTrashed = None, trashedOnly = Some True, deletedAtField = Some ''removedAt''\<rparr>)
       = [(''removedAt'', JObj [(''not'', JNull)])]
   \<and> row_matches (buildSoftDeleteFilter None) [(''id'', JNum 1), (''deletedAt'', JNull)] = Some True
   \<and> row_matches (buildSoftDeleteFilter None) [(''id'', JNum 2), (''deletedAt'', JStr ''2026-01-01'')] = Some False
   \<and> softDeleteQueryBuilder echo_executor
        [(''page'', JNum 1), (''filters'', JObj [(''deletedAt'', JStr ''x''), (''isActive'', JBool True)])]
        (Some \<lparr>includeTrashed = Some False, trashedOnly = Some True, deletedAtField = None\<rparr>) 0
      = (Inr \<lparr>data = [JObj [(''page'', JNum 1),
                          (''filters'', JObj [(''deletedAt'', JObj [(''not'', JNull)]),
                                             (''isActive'', JBool True)])]],
           meta = JNum 0\<rparr>, 1)"
proof -
  note both = soft_delete_filter_modes [of "Some True" "Some True" None "''deletedAt''"
          "[(''id'', JNum 1), (''deletedAt'', JNull)]" echo_executor "[]" None 0 "''x''"]
  note only = soft_delete_filter_modes [of None "Some True" "Some ''removedAt''" "''deletedAt''"
          "[(''id'', JNum 2), (''deletedAt'', JStr ''2026-01-01'')]" echo_executor "[]" None 0 "''x''"]
  have 1: "buildSoftDeleteFilter (Some \<lparr>includeTrashed = Some True, trashedOnly = Some True, deletedAtField = None\<rparr>) = []"
    using both by simp
  have 2: "buildSoftDeleteFilter (Some \<lparr>includeTrashed = None, trashedOnly = Some True, deletedAtField = Some ''removedAt''\<rparr>)
       = [(''removedAt'', JObj [(''not'', JNull)])]"
    using only by (simp add: default_to_def)
  have 3: "row_matches (buildSoftDeleteFilter None) [(''id'', JNum 1), (''deletedAt'', JNull)] = Some True"
    using both by (simp add: obj_get_def)
  have 4: "row_matches (buildSoftDeleteFilter None) [(''id'', JNum 2), (''deletedAt'', JStr ''2026-01-01'')] = Some False"
    using only by (simp add: obj_get_def)
  show ?thesis
    using 1 2 3 4 soft_delete_run by simp
qed

section \<open>Tenant scoping\<close>












section \<open>The cache is read-through\<close>

lemma cached_disabled:
  assumes "cfg = None \<or> (\<exists>x. cfg = Some x \<and> (enabled x = Some False \<or> key x = None \<or> key x = Some []))"
  shows "cachedQueryBuilder queryBuilder clock options cfg (c, w) =
           (fst (queryBuilder options w), c, snd (queryBuilder options w))"
  using assms
  by (auto simp: cachedQueryBuilder_def default_to_def split: prod.splits option.splits)

lemma cached_hit:
  assumes "enabled cfg \<noteq> Some False" "key cfg = Some k" "k \<noteq> []"
    and "c k = Some item" "clock w \<le> expiry item"
  shows "cachedQueryBuilder queryBuilder clock options (Some cfg) (c, w) = (Inr (entry_value item), c, w)"
  using assms
  by (auto simp: cachedQueryBuilder_def default_to_def cache_get_def split: option.splits)

lemma cached_miss:
  assumes "enabled cfg \<noteq> Some False" "key cfg = Some k" "k \<noteq> []"
    and "c k = None \<or> (\<exists>item. c k = Some item \<and> expiry item < clock w)"
  shows "cachedQueryBuilder queryBuilder clock options (Some cfg) (c, w) =
           (case queryBuilder options w of
              (Inl e, w') \<Rightarrow> (Inl e, c(k := None), w')
            | (Inr result, w') \<Rightarrow>
                (Inr result,
                 c(k \<mapsto> \<lparr>entry_value = result, expiry = clock w' + default_to 300000 (ttl cfg)\<rparr>), w'))"
  using assms
  by (auto simp: cachedQueryBuilder_def default_to_def cache_get_def cache_set_def fun_eq_iff
           split: option.splits prod.splits sum.splits)

lemma cache_get_expired:
  "c k = Some item \<Longrightarrow> expiry item < now \<Longrightarrow> cache_get now k c = (None, c(k := None))"
  by (simp add: cache_get_def)

text \<open>
  Claim C3. With caching enabled (\<^verbatim>\<open>enabled\<close> left out or true) and a key (a non-empty
  string): if the store holds an entry for the key that has not expired at the time of
  the read, the stored response is returned, the store is unchanged and the query is
  not executed (the world is unchanged, whatever the executor); otherwise the query is
  executed and, when it answers, the response is stored under the key with
  \<open>expiry = now + ttl\<close>, \<open>now\<close> read when the entry is written and \<open>ttl\<close> defaulting to
  five minutes; when the query fails its error is returned and nothing is stored. When
  caching is disabled, or no key is given, or no config at all, the query is executed
  and the store is left as it was. An entry found expired on a read is deleted by that
  read.
\<close>

theorem cached_query_read_through:
  fixes queryBuilder :: "'w executor"
  shows
  "(enabled cfg \<noteq> Some False \<and> key cfg = Some k \<and> k \<noteq> [] \<longrightarrow>
      (\<forall>item. c k = Some item \<and> clock w \<le> expiry item \<longrightarrow>
         cachedQueryBuilder queryBuilder clock options (Some cfg) (c, w) =
           (Inr (entry_value item), c, w))
      \<and> (c k = None \<or> (\<exists>item. c k = Some item \<and> expiry item < clock w) \<longrightarrow>
         cachedQueryBuilder queryBuilder clock options (Some cfg) (c, w) =
           (case queryBuilder options w of
              (Inl e, w') \<Rightarrow> (Inl e, c(k := None), w')
            | (Inr result, w') \<Rightarrow>
                (Inr result,
                 c(k \<mapsto> \<lparr>entry_value = result,
                           expiry = clock w' + (case ttl cfg of None \<Rightarrow> 5 * 60 * 1000 | Some t \<Rightarrow> t)\<rparr>),
                 w'))))
   \<and> (enabled cfg = Some False \<or> key cfg = None \<or> key cfg = Some [] \<longrightarrow>
        cachedQueryBuilder queryBuilder clock options (Some cfg) (c, w) =
          (fst (queryBuilder options w), c, snd (queryBuilder options w)))
   \<and> cachedQueryBuilder queryBuilder clock options None (c, w) =
        (fst (queryBuilder options w), c, snd (queryBuilder options w))
   \<and> (\<forall>item. c k = Some item \<and> expiry item < now \<longrightarrow>
        cache_get now k c = (None, c(k := None)))"
proof (intro conjI impI allI)
  fix item
  assume "enabled cfg \<noteq> Some False \<and> key cfg = Some k \<and> k \<noteq> []"
    and "c k = Some item \<and> clock w \<le> expiry item"
  then show "cachedQueryBuilder queryBuilder clock options (Some cfg) (c, w) =
           (Inr (entry_value item), c, w)"
    by (simp add: cached_hit)
next
  have ttl5: "default_to 300000 (ttl cfg) = (case ttl cfg of None \<Rightarrow> 5 * 60 * 1000 | Some t \<Rightarrow> t)"
    by (simp add: default_to_def split: option.splits)
  assume "enabled cfg \<noteq> Some False \<and> key cfg = Some k \<and> k \<noteq> []"
    and "c k = None \<or> (\<exists>item. c k = Some item \<and> expiry item < clock w)"
  then show "cachedQueryBuilder queryBuilder clock options (Some cfg) (c, w) =
           (case queryBuilder options w of
              (Inl e, w') \<Rightarrow> (Inl e, c(k := None), w')
            | (Inr result, w') \<Rightarrow>
                (Inr result,
                 c(k \<mapsto> \<lparr>entry_value = result,
                           expiry = clock w' + (case ttl cfg of None \<Rightarrow> 5 * 60 * 1000 | Some t \<Rightarrow> t)\<rparr>),
                 w'))"
    using cached_miss [of cfg k c clock w queryBuilder options] unfolding ttl5 by blast
next
  assume "enabled cfg = Some False \<or> key cfg = None \<or> key cfg = Some []"
  then show "cachedQueryBuilder queryBuilder clock options (Some cfg) (c, w) =
          (fst (queryBuilder options w), c, snd (queryBuilder options w))"
    by (intro cached_disabled) simp
next
  show "cachedQueryBuilder queryBuilder clock options None (c, w) =
        (fst (queryBuilder options w), c, snd (queryBuilder options w))"
    by (intro cached_disabled) simp
next
  fix item
  assume "c k = Some item \<and> expiry item < now"
  then show "cache_get now k c = (None, c(k := None))"
    by (simp add: cache_get_expired)
qed

lemma echo_first_call:
  "echo_executor [(''page'', JNum 1)] 5 =
     (Inr \<lparr>data = [JObj [(''page'', JNum 1)]], meta = JNum 5\<rparr>, 6)"
  by (simp add: echo_executor_def)

theorem cached_query_read_through_witness:
  "cachedQueryBuilder echo_executor tick_clock [(''page'', JNum 1)]
      (Some \<lparr>key = Some ''users'', ttl = None, enabled = None\<rparr>) (Map.empty, 5) =
     (Inr \<lparr>data = [JObj [(''page'', JNum 1)]], meta = JNum 5\<rparr>,
      [''users'' \<mapsto> \<lparr>entry_value = \<lparr>data = [JObj [(''page'', JNum 1)]], meta = JNum 5\<rparr>,
                      expiry = 306000\<rparr>],
      6)
   \<and> cachedQueryBuilder echo_executor tick_clock [(''page'', JNum 1)]
      (Some \<lparr>key = Some ''users'', ttl = None, enabled = None\<rparr>)
      ([''users'' \<mapsto> \<lparr>entry_value = \<lparr>data = [JObj [(''page'', JNum 1)]], meta = JNum 5\<rparr>,
                       expiry = 306000\<rparr>], 6) =
     (Inr \<lparr>data = [JObj [(''page'', JNum 1)]], meta = JNum 5\<rparr>,
      [''users'' \<mapsto> \<lparr>entry_value = \<lparr>data = [JObj [(''page'', JNum 1)]], meta = JNum 5\<rparr>,
                      expiry = 306000\<rparr>],
      6)"
proof -
  note miss = cached_query_read_through
    [where cfg = "\<lparr>key = Some ''users'', ttl = None, enabled = None\<rparr>" and k = "''users''"
       and c = Map.empty and clock = tick_clock and w = 5 and queryBuilder = echo_executor
       and options = "[(''page'', JNum 1)]" and now = 0]
  note hit = cached_query_read_through
    [where cfg = "\<lparr>key = Some ''users'', ttl = None, enabled = None\<rparr>" and k = "''users''"
       and c = "[''users'' \<mapsto> \<lparr>entry_value = \<lparr>data = [JObj [(''page'', JNum 1)]], meta = JNum 5\<rparr>,
                                  expiry = 306000\<rparr>]"
       and clock = tick_clock and w = 6 and queryBuilder = echo_executor
       and options = "[(''page'', JNum 1)]" and now = 0]
  have 1: "cachedQueryBuilder echo_executor tick_clock [(''page'', JNum 1)]
      (Some \<lparr>key = Some ''users'', ttl = None, enabled = None\<rparr>) (Map.empty, 5) =
     (Inr \<lparr>data = [JObj [(''page'', JNum 1)]], meta = JNum 5\<rparr>,
      [''users'' \<mapsto> \<lparr>entry_value = \<lparr>data = [JObj [(''page'', JNum 1)]], meta = JNum 5\<rparr>,
                      expiry = 306000\<rparr>],
      6)"
    using miss by (simp add: echo_first_call tick_clock_def)
  have 2: "cachedQueryBuilder echo_executor tick_clock [(''page'', JNum 1)]
      (Some \<lparr>key = Some ''users'', ttl = None, enabled = None\<rparr>)
      ([''users'' \<mapsto> \<lparr>entry_value = \<lparr>data = [JObj [(''page'', JNum 1)]], meta = JNum 5\<rparr>,
                       expiry = 306000\<rparr>], 6) =
     (Inr \<lparr>data = [JObj [(''page'', JNum 1)]], meta = JNum 5\<rparr>,
      [''users'' \<mapsto> \<lparr>entry_value = \<lparr>data = [JObj [(''page'', JNum 1)]], meta = JNum 5\<rparr>,
                      expiry = 306000\<rparr>],
      6)"
    using hit by (simp add: tick_clock_def)
  show ?thesis
    using 1 2 by simp
qed

section \<open>CSV export\<close>












lemma map_throwing_total:
  "map_throwing (\<lambda>x. Inr (g x)) xs = Inr (map g xs)"
  by (induction xs) simp_all













text \<open>The reader and the escaping at a few inputs: the reader refuses a stray or an
  unclosed quote and a bare line break.\<close>

lemma rfc4180_reader_examples:
  "rfc4180_split ''a,b,,c'' = Some [''a'', ''b'', [], ''c'']"
  "rfc4180_split ([CHR 0x22] @ ''a'' @ [CHR 0x22, CHR 0x22] @ ''b,c'' @ [CHR 0x22] @ '',d'') =
     Some [''a'' @ [CHR 0x22] @ ''b,c'', ''d'']"
  "rfc4180_split (''a'' @ [CHR 0x22] @ ''b'') = None"
  "rfc4180_split ([CHR 0x22] @ ''ab'') = None"
  "rfc4180_split ([CHR 0x22] @ ''a'' @ [CHR 0x22] @ ''b'') = None"
  "rfc4180_split (''a'' @ [CHR 0x0A] @ ''b'') = None"
  by (simp_all add: rfc4180_split_def)

lemma escapeCsv_examples:
  "escapeCsv ''plain'' = ''plain''"
  "escapeCsv (''a'' @ [CHR 0x0D] @ ''b'') = [CHR 0x22] @ ''a'' @ [CHR 0x0D] @ ''b'' @ [CHR 0x22]"
  "escapeCsv ''a,b'' = [CHR 0x22] @ ''a,b'' @ [CHR 0x22]"
  by code_simp+











section \<open>The webhook decorator\<close>

text \<open>
  When the base query answers and the payload serialises, the decorator returns the
  base query's response whatever \<^verbatim>\<open>fetch\<close> does, and a rejected delivery adds one line
  to the console. When the base query fails, its error is returned and nothing is sent.
  When the payload does not serialise, the base query's response is lost to the
  TypeError.
\<close>

lemma webhook_delivery_outcome_ignored:
  fixes queryBuilder :: "'w executor"
  assumes "queryBuilder options w = (Inr result, w1)"
    and "JSON_stringify (JObj (webhook_payload result (iso_now w1) options webhookOptions)) = Some body"
  shows "fst (queryWithWebhook queryBuilder fetch iso_now options url webhookOptions (console, w)) =
           Inr result"
    and "fst (snd (queryWithWebhook queryBuilder fetch iso_now options url webhookOptions (console, w))) =
           (case fst (fetch url \<lparr>req_method = ''POST'', req_headers = webhook_headers webhookOptions,
                                   req_body = body\<rparr> w1) of
              Fulfilled \<Rightarrow> console
            | Rejected err \<Rightarrow> console @ [(''Webhook error:'', err)])"
  using assms
  by (auto simp: queryWithWebhook_def split: prod.splits fetch_outcome.splits)

lemma webhook_base_failure:
  fixes queryBuilder :: "'w executor"
  assumes "queryBuilder options w = (Inl e, w1)"
  shows "queryWithWebhook queryBuilder fetch iso_now options url webhookOptions (console, w) =
           (Inl e, console, w1)"
  using assms by (simp add: queryWithWebhook_def)

lemma webhook_payload_not_serialisable:
  fixes queryBuilder :: "'w executor"
  assumes "queryBuilder options w = (Inr result, w1)"
    and "JSON_stringify (JObj (webhook_payload result (iso_now w1) options webhookOptions)) = None"
  shows "queryWithWebhook queryBuilder fetch iso_now options url webhookOptions (console, w) =
           (Inl (TypeError ''Do not know how to serialize a BigInt''), console, w1)"
  using assms by (simp add: queryWithWebhook_def)

lemma webhook_network_down_run:
  "queryWithWebhook echo_executor fetch_down fixed_iso [(''page'', JNum 1)]
        ''https://example.invalid/webhook'' None ([], 0) =
     (Inr \<lparr>data = [JObj [(''page'', JNum 1)]], meta = JNum 0\<rparr>,
      [(''Webhook error:'', Error ''network'')], 1)"
  by code_simp

text \<open>
  Claim C2, at a failing input. The base query answers with a row that has a BigInt
  column (as Prisma returns for a \<^verbatim>\<open>BigInt\<close> field), and the network is up. Building
  the request body throws before \<^verbatim>\<open>fetch\<close> is called, outside the \<^verbatim>\<open>.catch\<close> handler:
  the decorator rejects with the TypeError instead of returning the base query's
  response.
\<close>

theorem webhook_bigint_result_rejects:
  "fst (bigint_executor [(''page'', JNum 1)] 0) =
     Inr \<lparr>data = [JObj [(''id'', JBigInt 10)]], meta = JObj [(''total'', JNum 1)]\<rparr>
   \<and> queryWithWebhook bigint_executor fetch_ok fixed_iso [(''page'', JNum 1)]
        ''https://example.invalid/webhook'' None ([], 0) =
       (Inl (TypeError ''Do not know how to serialize a BigInt''), [], 1)"
  by code_simp

section \<open>Presets\<close>

lemma loadQueryPreset_Inr: "loadQueryPreset reg name = Inr p \<longleftrightarrow> map_of reg name = Some p"
  by (simp add: loadQueryPreset_def split: option.splits)

lemma executePreset_missing:
  "loadQueryPreset reg name = Inl e \<Longrightarrow>
   executePreset queryBuilder name overrides (reg, h, w) = (Inl e, reg, h, w)"
  by (simp add: executePreset_def)

lemma executePreset_found:
  "loadQueryPreset reg name = Inr preset \<Longrightarrow>
   executePreset queryBuilder name overrides (reg, h, w) =
     (case queryBuilder (next_ref h)
             (h\<lparr>objs := (objs h)(next_ref h := spread (obj_assign [] (objs h preset)) overrides),
                next_ref := Suc (next_ref h)\<rparr>, w) of
        (r, h2, w2) \<Rightarrow> (r, reg, h2, w2))"
  by (simp add: executePreset_def alloc_def split: prod.splits)

lemma executePreset_registry:
  "fst (snd (executePreset queryBuilder name overrides (reg, h, w))) = reg"
  by (cases "loadQueryPreset reg name")
     (simp_all add: executePreset_missing executePreset_found split: prod.splits)

lemma obj_get_copy:
  "distinct (map fst ps) \<Longrightarrow> obj_get (obj_assign [] ps) k = obj_get ps k"
  by (simp add: obj_get_def map_of_obj_assign map_of_rev_distinct)

lemma merged_lookup:
  assumes "distinct (map fst ps)" "distinct (map fst ov)"
  shows "obj_get (spread (obj_assign [] ps) (JObj ov)) k =
           (case map_of ov k of Some v \<Rightarrow> v | None \<Rightarrow> obj_get ps k)"
  using assms
  by (simp add: obj_get_def spread_def map_of_obj_assign map_of_rev_distinct map_add_def
           split: option.splits)

lemma merged_lookup_omitted:
  assumes "distinct (map fst ps)"
  shows "obj_get (spread (obj_assign [] ps) JUndefined) k = obj_get ps k"
  using assms
  by (simp add: spread_def obj_assign_Nil obj_get_copy)

text \<open>
  Claim C10. \<^verbatim>\<open>executePreset\<close> leaves the registry as it was, so that
  \<^verbatim>\<open>loadQueryPreset(name)\<close> returns the same reference after the call as before; for an
  unknown name it fails with the lookup's error and does nothing else. For a known name
  it runs the base query on a freshly allocated object holding the shallow merge of the
  stored preset with the overrides, an override winning for each top-level key it has,
  and the stored object's properties are not written by the merge. Whatever the base
  query does to the object it is given, as long as it writes to no other object, the
  stored preset's properties after the call are those before it.
\<close>

theorem execute_preset_frame:
  fixes queryBuilder :: "'w ref_executor"
  shows
  "fst (snd (executePreset queryBuilder name overrides (reg, h, w))) = reg
   \<and> loadQueryPreset (fst (snd (executePreset queryBuilder name overrides (reg, h, w)))) name =
       loadQueryPreset reg name
   \<and> (\<forall>e. loadQueryPreset reg name = Inl e \<longrightarrow>
         executePreset queryBuilder name overrides (reg, h, w) = (Inl e, reg, h, w))
   \<and> (\<forall>preset. loadQueryPreset reg name = Inr preset \<longrightarrow>
         executePreset queryBuilder name overrides (reg, h, w) =
           (case queryBuilder (next_ref h)
                   (h\<lparr>objs := (objs h)(next_ref h := spread (obj_assign [] (objs h preset)) overrides),
                      next_ref := Suc (next_ref h)\<rparr>, w) of
              (r, h2, w2) \<Rightarrow> (r, reg, h2, w2))
         \<and> (preset < next_ref h \<longrightarrow>
              objs (h\<lparr>objs := (objs h)(next_ref h := spread (obj_assign [] (objs h preset)) overrides),
                     next_ref := Suc (next_ref h)\<rparr>) preset = objs h preset)
         \<and> (preset < next_ref h
              \<and> (\<forall>r hp wp q. q \<noteq> r \<longrightarrow> objs (fst (snd (queryBuilder r (hp, wp)))) q = objs hp q) \<longrightarrow>
              objs (fst (snd (snd (executePreset queryBuilder name overrides (reg, h, w))))) preset =
                objs h preset)
         \<and> (\<forall>ov k. overrides = JObj ov \<and> distinct (map fst ov) \<and> distinct (map fst (objs h preset)) \<longrightarrow>
              obj_get (spread (obj_assign [] (objs h preset)) overrides) k =
                (case map_of ov k of Some v \<Rightarrow> v | None \<Rightarrow> obj_get (objs h preset) k))
         \<and> (\<forall>k. overrides = JUndefined \<and> distinct (map fst (objs h preset)) \<longrightarrow>
              obj_get (spread (obj_assign [] (objs h preset)) overrides) k = obj_get (objs h preset) k))"
proof (intro conjI allI impI)
  show "fst (snd (executePreset queryBuilder name overrides (reg, h, w))) = reg"
    by (rule executePreset_registry)
  then show "loadQueryPreset (fst (snd (executePreset queryBuilder name overrides (reg, h, w)))) name =
       loadQueryPreset reg name"
    by simp
next
  fix e assume "loadQueryPreset reg name = Inl e"
  then show "executePreset queryBuilder name overrides (reg, h, w) = (Inl e, reg, h, w)"
    by (rule executePreset_missing)
next
  fix preset assume "loadQueryPreset reg name = Inr preset"
  then show "executePreset queryBuilder name overrides (reg, h, w) =
           (case queryBuilder (next_ref h)
                   (h\<lparr>objs := (objs h)(next_ref h := spread (obj_assign [] (objs h preset)) overrides),
                      next_ref := Suc (next_ref h)\<rparr>, w) of
              (r, h2, w2) \<Rightarrow> (r, reg, h2, w2))"
    by (rule executePreset_found)
next
  fix preset assume "preset < next_ref h"
  then show "objs (h\<lparr>objs := (objs h)(next_ref h := spread (obj_assign [] (objs h preset)) overrides),
                     next_ref := Suc (next_ref h)\<rparr>) preset = objs h preset"
    by simp
next
  fix preset
  assume found: "loadQueryPreset reg name = Inr preset"
    and fr: "preset < next_ref h
              \<and> (\<forall>r hp wp q. q \<noteq> r \<longrightarrow> objs (fst (snd (queryBuilder r (hp, wp)))) q = objs hp q)"
  let ?h1 = "h\<lparr>objs := (objs h)(next_ref h := spread (obj_assign [] (objs h preset)) overrides),
                next_ref := Suc (next_ref h)\<rparr>"
  from fr have ne: "preset \<noteq> next_ref h" by simp
  with fr have "objs (fst (snd (queryBuilder (next_ref h) (?h1, w)))) preset = objs ?h1 preset"
    by blast
  moreover have "objs ?h1 preset = objs h preset"
    using ne by simp
  ultimately have "objs (fst (snd (queryBuilder (next_ref h) (?h1, w)))) preset = objs h preset"
    by simp
  then show "objs (fst (snd (snd (executePreset queryBuilder name overrides (reg, h, w))))) preset =
                objs h preset"
    unfolding executePreset_found [OF found]
    by (cases "queryBuilder (next_ref h) (?h1, w)") auto
next
  fix preset ov k
  assume "overrides = JObj ov \<and> distinct (map fst ov) \<and> distinct (map fst (objs h preset))"
  then show "obj_get (spread (obj_assign [] (objs h preset)) overrides) k =
                (case map_of ov k of Some v \<Rightarrow> v | None \<Rightarrow> obj_get (objs h preset) k)"
    by (simp add: merged_lookup)
next
  fix preset k
  assume "overrides = JUndefined \<and> distinct (map fst (objs h preset))"
  then show "obj_get (spread (obj_assign [] (objs h preset)) overrides) k = obj_get (objs h preset) k"
    by (simp add: merged_lookup_omitted)
qed

lemma paging_executor_frame:
  "q \<noteq> r \<Longrightarrow> objs (fst (snd (paging_executor r (hp, wp)))) q = objs hp q"
  by (simp add: paging_executor_def)

lemma sample_preset_run:
  "fst (executePreset paging_executor ''active'' (JObj [(''page'', JNum 5)])
          ([(''active'', 0)], sample_store, 0)) =
     Inr \<lparr>data = [JObj [(''page'', JNum 5), (''limit'', JNum 10)]], meta = JNum 0\<rparr>
   \<and> objs (fst (snd (snd (executePreset paging_executor ''active'' (JObj [(''page'', JNum 5)])
          ([(''active'', 0)], sample_store, 0))))) 1 = [(''page'', JNum 1), (''limit'', JNum 10)]"
  by code_simp

theorem execute_preset_frame_witness:
  "loadQueryPreset [(''active'', 0)] ''active'' = Inr 0
   \<and> fst (executePreset paging_executor ''active'' (JObj [(''page'', JNum 5)])
          ([(''active'', 0)], sample_store, 0)) =
       Inr \<lparr>data = [JObj [(''page'', JNum 5), (''limit'', JNum 10)]], meta = JNum 0\<rparr>
   \<and> fst (snd (executePreset paging_executor ''active'' (JObj [(''page'', JNum 5)])
          ([(''active'', 0)], sample_store, 0))) = [(''active'', 0)]
   \<and> objs (fst (snd (snd (executePreset paging_executor ''active'' (JObj [(''page'', JNum 5)])
          ([(''active'', 0)], sample_store, 0))))) 0 = [(''page'', JNum 2), (''limit'', JNum 10)]
   \<and> objs (fst (snd (snd (executePreset paging_executor ''active'' (JObj [(''page'', JNum 5)])
          ([(''active'', 0)], sample_store, 0))))) 1 = [(''page'', JNum 1), (''limit'', JNum 10)]"
proof -
  have found: "loadQueryPreset [(''active'', 0)] ''active'' = Inr 0"
    by (simp add: loadQueryPreset_def)
  have alloc: "(0::nat) < next_ref sample_store"
    by (simp add: sample_store_def)
  have frame: "\<forall>r hp wp q. q \<noteq> r \<longrightarrow> objs (fst (snd (paging_executor r (hp, wp)))) q = objs hp q"
    by (simp add: paging_executor_frame)
  note inst = execute_preset_frame
    [where queryBuilder = paging_executor and name = "''active''"
       and overrides = "JObj [(''page'', JNum 5)]" and reg = "[(''active'', 0)]"
       and h = sample_store and w = 0]
  from inst have reg: "fst (snd (executePreset paging_executor ''active'' (JObj [(''page'', JNum 5)])
          ([(''active'', 0)], sample_store, 0))) = [(''active'', 0)]"
    by blast
  from inst found alloc frame
  have "objs (fst (snd (snd (executePreset paging_executor ''active'' (JObj [(''page'', JNum 5)])
          ([(''active'', 0)], sample_store, 0))))) 0 = objs sample_store 0"
    by blast
  then have kept: "objs (fst (snd (snd (executePreset paging_executor ''active'' (JObj [(''page'', JNum 5)])
          ([(''active'', 0)], sample_store, 0))))) 0 = [(''page'', JNum 2), (''limit'', JNum 10)]"
    by (simp add: sample_store_def)
  show ?thesis
    using found reg kept sample_preset_run by blast
qed

section \<open>Pagination helpers\<close>

lemma ceil_div_formula:
  fixes t l :: int
  assumes "1 \<le> l"
  shows "\<lceil>real_of_int t / real_of_int l\<rceil> = (t + l - 1) div l"
proof -
  have "\<lceil>real_of_int t / real_of_int l\<rceil> = - ((- t) div l)"
    by (rule ceiling_divide_eq_div)
  also have "\<dots> = (t + l - 1) div l"
  proof (cases "t mod l = 0")
    case True
    then obtain q where q: "t = q * l"
      by (metis mod_eq_0_iff_dvd dvd_def mult.commute)
    have "(q * l + (l - 1)) div l = q + (l - 1) div l"
      using assms by (metis add.commute div_mult_self1 not_one_le_zero mult.commute)
    moreover have "(l - 1) div l = 0"
      using assms by (simp add: div_pos_pos_trivial)
    ultimately have "(t + l - 1) div l = q"
      using q by (simp add: algebra_simps)
    moreover have "- ((- t) div l) = q"
    proof -
      have "- t = (- q) * l"
        using q by simp
      then have "(- t) div l = - q"
        using assms by (metis nonzero_mult_div_cancel_right not_one_le_zero)
      then show ?thesis by simp
    qed
    ultimately show ?thesis by simp
  next
    case False
    have "t = (t div l) * l + t mod l"
      by simp
    moreover have "0 \<le> t mod l" and "t mod l < l"
      using assms by simp_all
    with False have m: "1 \<le> t mod l" "t mod l < l"
      by simp_all
    ultimately have "t + l - 1 = (t div l + 1) * l + (t mod l - 1)"
      by (simp add: algebra_simps)
    then have "(t + l - 1) div l = (t div l + 1) + (t mod l - 1) div l"
      using assms by (metis add.commute div_mult_self1 not_one_le_zero mult.commute)
    moreover have "(t mod l - 1) div l = 0"
      using m by (simp add: div_pos_pos_trivial)
    moreover have "(- t) div l = - (t div l) - 1"
      using assms False by (simp add: zdiv_zminus1_eq_if)
    ultimately show ?thesis by simp
  qed
  finally show ?thesis .
qed

text \<open>
  Claim C6. For every \<open>total \<ge> 0\<close> and \<open>limit \<ge> 1\<close>, \<^verbatim>\<open>calculateTotalPages(total,
  limit)\<close> is the ceiling of \<open>total / limit\<close>, which is \<open>(total + limit - 1) div limit\<close>:
  the least number of pages of \<open>limit\<close> rows that hold \<open>total\<close> rows. It is 0 if and only
  if \<open>total = 0\<close>.
\<close>

theorem total_pages_is_ceiling:
  assumes "0 \<le> t" and "1 \<le> l"
  shows "calculateTotalPages t l = Some \<lceil>real_of_int t / real_of_int l\<rceil>
       \<and> calculateTotalPages t l = Some ((t + l - 1) div l)
       \<and> (\<exists>p. calculateTotalPages t l = Some p \<and> t \<le> p * l \<and> (p - 1) * l < t)
       \<and> (calculateTotalPages t l = Some 0 \<longleftrightarrow> t = 0)"
proof -
  let ?p = "\<lceil>real_of_int t / real_of_int l\<rceil>"
  from assms have l0: "l \<noteq> 0" "0 < real_of_int l" by simp_all
  have eq: "calculateTotalPages t l = Some ?p"
    using l0 by (simp add: calculateTotalPages_def)
  have up: "real_of_int t / real_of_int l \<le> real_of_int ?p"
    by (rule le_of_int_ceiling)
  have "real_of_int t \<le> real_of_int ?p * real_of_int l"
    using up l0(2) pos_divide_le_eq [of "real_of_int l" "real_of_int t" "real_of_int ?p"] by blast
  then have a: "t \<le> ?p * l"
    by (metis of_int_le_iff of_int_mult)
  have low: "real_of_int (?p - 1) < real_of_int t / real_of_int l"
    by linarith
  have "real_of_int (?p - 1) * real_of_int l < real_of_int t"
    using low l0(2) pos_less_divide_eq [of "real_of_int l" "real_of_int (?p - 1)" "real_of_int t"]
    by blast
  then have b: "(?p - 1) * l < t"
    by (metis of_int_less_iff of_int_mult)
  have z: "?p = 0 \<longleftrightarrow> t = 0"
  proof
    assume "?p = 0"
    with a assms show "t = 0" by simp
  next
    assume "t = 0"
    then show "?p = 0" by simp
  qed
  show ?thesis
    using eq a b z ceil_div_formula [OF assms(2), of t] by simp
qed

theorem total_pages_is_ceiling_witness:
  "(0::int) \<le> 25 \<and> (1::int) \<le> 10
   \<and> calculateTotalPages 25 10 = Some 3
   \<and> calculateTotalPages 0 10 = Some 0"
proof -
  have h: "(0::int) \<le> 25" "(1::int) \<le> 10" "(0::int) \<le> 0"
    by simp_all
  have "calculateTotalPages 25 10 = Some ((25 + 10 - 1) div 10)"
    using total_pages_is_ceiling [OF h(1) h(2)] by blast
  moreover have "calculateTotalPages 0 10 = Some 0"
    using total_pages_is_ceiling [OF h(3) h(2)] by blast
  ultimately show ?thesis by simp
qed

text \<open>
  Claim C5. For every row list, every \<open>limit \<ge> 1\<close> and every cursor field: when there are
  more rows than \<open>limit\<close>, \<^verbatim>\<open>processCursorResults\<close> returns \<^verbatim>\<open>hasMore = true\<close>, the first
  \<open>limit\<close> rows as data, and as \<^verbatim>\<open>nextCursor\<close> the cursor field of the last row of the
  data, which is row \<open>limit - 1\<close>; otherwise it returns \<^verbatim>\<open>hasMore = false\<close>, all the rows,
  and as \<^verbatim>\<open>nextCursor\<close> the cursor field of the last row, \<^verbatim>\<open>null\<close> when there is no row.
\<close>

theorem cursor_results_shape:
  assumes "1 \<le> limit"
  shows "(length rows > limit \<longrightarrow>
            processCursorResults rows limit cursorField =
              Inr \<lparr>cursor_data = take limit rows, hasMore = True,
                   nextCursor = obj_get (last (take limit rows)) cursorField\<rparr>
            \<and> last (take limit rows) = rows ! (limit - 1)
            \<and> length (take limit rows) = limit)
       \<and> (length rows \<le> limit \<longrightarrow>
            processCursorResults rows limit cursorField =
              Inr \<lparr>cursor_data = rows, hasMore = False,
                   nextCursor = (if rows = [] then JNull else obj_get (last rows) cursorField)\<rparr>)"
proof (intro conjI impI)
  assume more: "limit < length rows"
  with assms have ne: "take limit rows \<noteq> []"
    by auto
  then obtain d ds where t: "take limit rows = d # ds"
    by (cases "take limit rows") auto
  with more show "processCursorResults rows limit cursorField =
              Inr \<lparr>cursor_data = take limit rows, hasMore = True,
                   nextCursor = obj_get (last (take limit rows)) cursorField\<rparr>"
    by (simp add: processCursorResults_def)
  from more assms show "last (take limit rows) = rows ! (limit - 1)"
    using ne by (simp add: last_conv_nth)
  from more show "length (take limit rows) = limit"
    by simp
next
  assume "length rows \<le> limit"
  then show "processCursorResults rows limit cursorField =
              Inr \<lparr>cursor_data = rows, hasMore = False,
                   nextCursor = (if rows = [] then JNull else obj_get (last rows) cursorField)\<rparr>"
    by (simp add: processCursorResults_def)
qed

text \<open>The two examples of the spec's section 8.\<close>

theorem cursor_results_shape_witness:
  "(1::nat) \<le> 2
   \<and> processCursorResults [[(''id'', JStr ''a'')], [(''id'', JStr ''b'')], [(''id'', JStr ''c'')]] 2 ''id'' =
     Inr \<lparr>cursor_data = [[(''id'', JStr ''a'')], [(''id'', JStr ''b'')]], hasMore = True,
          nextCursor = JStr ''b''\<rparr>
   \<and> processCursorResults [[(''id'', JStr ''a'')], [(''id'', JStr ''b'')], [(''id'', JStr ''c'')]] 5 ''id'' =
     Inr \<lparr>cursor_data = [[(''id'', JStr ''a'')], [(''id'', JStr ''b'')], [(''id'', JStr ''c'')]],
          hasMore = False, nextCursor = JStr ''c''\<rparr>"
proof -
  have h: "(1::nat) \<le> 2" "(1::nat) \<le> 5"
    by simp_all
  have "processCursorResults [[(''id'', JStr ''a'')], [(''id'', JStr ''b'')], [(''id'', JStr ''c'')]] 2 ''id'' =
     Inr \<lparr>cursor_data = take 2 [[(''id'', JStr ''a'')], [(''id'', JStr ''b'')], [(''id'', JStr ''c'')]],
          hasMore = True,
          nextCursor = obj_get (last (take 2 [[(''id'', JStr ''a'')], [(''id'', JStr ''b'')], [(''id'', JStr ''c'')]])) ''id''\<rparr>"
    using cursor_results_shape [OF h(1), of "[[(''id'', JStr ''a'')], [(''id'', JStr ''b'')], [(''id'', JStr ''c'')]]" "''id''"]
    by simp
  moreover have "processCursorResults [[(''id'', JStr ''a'')], [(''id'', JStr ''b'')], [(''id'', JStr ''c'')]] 5 ''id'' =
     Inr \<lparr>cursor_data = [[(''id'', JStr ''a'')], [(''id'', JStr ''b'')], [(''id'', JStr ''c'')]],
          hasMore = False,
          nextCursor = obj_get (last [[(''id'', JStr ''a'')], [(''id'', JStr ''b'')], [(''id'', JStr ''c'')]]) ''id''\<rparr>"
    using cursor_results_shape [OF h(2), of "[[(''id'', JStr ''a'')], [(''id'', JStr ''b'')], [(''id'', JStr ''c'')]]" "''id''"]
    by simp
  ultimately show ?thesis
    by (simp add: obj_get_def numeral_2_eq_2)
qed

section \<open>Filter combinators\<close>

text \<open>
  Claim C7. \<^verbatim>\<open>combineFilters\<close> of no input is the empty object (no constraint), of one
  input that input unwrapped, of two or more inputs an AND node over them.
  \<^verbatim>\<open>combineFiltersWithOr\<close> of inputs none of which is non-empty is \<^verbatim>\<open>undefined\<close>, of
  inputs exactly one of which is non-empty that input unwrapped, and of inputs two or
  more of which are non-empty an OR node over the non-empty ones.
\<close>

theorem combinators_unwrap:
  "combineFilters [] = JObj []
   \<and> combineFilters [f] = JObj f
   \<and> (2 \<le> length fs \<longrightarrow> combineFilters fs = JObj [(''AND'', JArr (map JObj fs))])
   \<and> (filter (\<lambda>x. x \<noteq> []) fs = [] \<longrightarrow> combineFiltersWithOr fs = JUndefined)
   \<and> (filter (\<lambda>x. x \<noteq> []) fs = [g] \<longrightarrow> combineFiltersWithOr fs = JObj g)
   \<and> (2 \<le> length (filter (\<lambda>x. x \<noteq> []) fs) \<longrightarrow>
        combineFiltersWithOr fs = JObj [(''OR'', JArr (map JObj (filter (\<lambda>x. x \<noteq> []) fs)))])"
proof -
  have two: "2 \<le> length xs \<Longrightarrow> \<exists>a b zs. xs = a # b # zs" for xs :: "jsobj list"
    by (cases xs; cases "tl xs") auto
  have a: "2 \<le> length fs \<longrightarrow> combineFilters fs = JObj [(''AND'', JArr (map JObj fs))]"
    using two [of fs] by (auto simp: combineFilters_def)
  have b: "2 \<le> length (filter (\<lambda>x. x \<noteq> []) fs) \<longrightarrow>
        combineFiltersWithOr fs = JObj [(''OR'', JArr (map JObj (filter (\<lambda>x. x \<noteq> []) fs)))]"
    using two [of "filter (\<lambda>x. x \<noteq> []) fs"] by (auto simp: combineFiltersWithOr_def)
  show ?thesis
    using a b by (simp add: combineFilters_def combineFiltersWithOr_def)
qed

text \<open>The edge-case tests of \<^verbatim>\<open>filters\<close>.\<close>

theorem combinators_unwrap_witness:
  "combineFilters [] = JObj []
   \<and> combineFilters [[(''status'', JStr ''ACTIVE'')], [(''isActive'', JBool True)]] =
       JObj [(''AND'', JArr [JObj [(''status'', JStr ''ACTIVE'')], JObj [(''isActive'', JBool True)]])]
   \<and> combineFiltersWithOr [[], []] = JUndefined
   \<and> combineFiltersWithOr [[(''status'', JStr ''ACTIVE'')]] = JObj [(''status'', JStr ''ACTIVE'')]"
  using combinators_unwrap [of "[(''status'', JStr ''ACTIVE'')]"
          "[[(''status'', JStr ''ACTIVE'')], [(''isActive'', JBool True)]]" "[]"]
        combinators_unwrap [of "[]" "[[], []]" "[]"]
        combinators_unwrap [of "[]" "[[(''status'', JStr ''ACTIVE'')]]" "[(''status'', JStr ''ACTIVE'')]"]
  by simp

end
